theory Spec2Isabelle
  imports Main
begin

section \<open>Thrown values\<close>

text \<open>
  What a JavaScript \<^verbatim>\<open>catch\<close> clause of the call layer can receive.
  \<^item> \<open>AxiosError message status code serverMessage\<close>: a rejection of the HTTP client, for
    which \<^verbatim>\<open>axios.isAxiosError\<close> holds. \<open>status\<close> is \<^verbatim>\<open>error.response?.status\<close>
    (\<open>None\<close> when there is no response), \<open>code\<close> is \<^verbatim>\<open>error.code\<close>, and
    \<open>serverMessage\<close> is \<^verbatim>\<open>response.data.error.message || response.data.message\<close>.
  \<^item> \<open>JsError message\<close>: any other \<^verbatim>\<open>Error\<close> instance.
  \<^item> \<open>NonError repr\<close>: a thrown value that is not an \<^verbatim>\<open>Error\<close>; \<open>repr\<close> is
    \<^verbatim>\<open>String(value)\<close>.
\<close>

datatype thrown =
    AxiosError string "int option" "string option" "string option"
  | JsError string
  | NonError string

text \<open>\<^verbatim>\<open>error instanceof Error ? error : new Error(String(error))\<close>\<close>

fun asError :: "thrown \<Rightarrow> thrown" where
  "asError (NonError repr) = JsError repr"
| "asError e = e"

text \<open>\<^verbatim>\<open>error.message\<close> of an \<^verbatim>\<open>Error\<close> instance.\<close>

fun thrownMessage :: "thrown \<Rightarrow> string" where
  "thrownMessage (AxiosError m st c sm) = m"
| "thrownMessage (JsError m) = m"
| "thrownMessage (NonError repr) = repr"

section \<open>The circuit breaker\<close>

datatype CircuitBreakerState = CLOSED | OPEN | HALF_OPEN

record CircuitBreakerOptions =
  failureThreshold :: int
  successThreshold :: int
  timeout :: int

text \<open>
  The private fields of the class. \<open>emitted\<close> records, oldest first, the pairs
  \<open>(from, to)\<close> that \<^verbatim>\<open>changeState\<close> logs and hands to \<^verbatim>\<open>onStateChange\<close>.
\<close>

record CircuitBreaker =
  state :: CircuitBreakerState
  failureCount :: int
  successCount :: int
  nextAttempt :: int
  lastError :: "thrown option"
  options :: CircuitBreakerOptions
  emitted :: "(CircuitBreakerState \<times> CircuitBreakerState) list"

definition newCircuitBreaker :: "CircuitBreakerOptions \<Rightarrow> CircuitBreaker" where
  "newCircuitBreaker opts =
     \<lparr>state = CLOSED, failureCount = 0, successCount = 0, nextAttempt = 0,
      lastError = None, options = opts, emitted = []\<rparr>"

definition changeState :: "CircuitBreakerState \<Rightarrow> CircuitBreaker \<Rightarrow> CircuitBreaker" where
  "changeState to b =
     (if state b = to then b
      else b\<lparr>state := to, emitted := emitted b @ [(state b, to)]\<rparr>)"

definition reset :: "CircuitBreaker \<Rightarrow> CircuitBreaker" where
  "reset b = (changeState CLOSED b)\<lparr>failureCount := 0, successCount := 0, nextAttempt := 0\<rparr>"

text \<open>\<open>now\<close> is the value of \<^verbatim>\<open>Date.now()\<close> read inside \<^verbatim>\<open>toOpen\<close>.\<close>

definition toOpen :: "int \<Rightarrow> CircuitBreaker \<Rightarrow> CircuitBreaker" where
  "toOpen now b =
     (changeState OPEN b)\<lparr>nextAttempt := now + timeout (options b), successCount := 0\<rparr>"

definition toHalfOpen :: "CircuitBreaker \<Rightarrow> CircuitBreaker" where
  "toHalfOpen b = (changeState HALF_OPEN b)\<lparr>successCount := 0\<rparr>"

definition onSuccess :: "CircuitBreaker \<Rightarrow> CircuitBreaker" where
  "onSuccess b =
     (if state b = HALF_OPEN then
        (let b1 = b\<lparr>successCount := successCount b + 1\<rparr> in
         if successCount b1 \<ge> successThreshold (options b1) then reset b1 else b1)
      else if state b = CLOSED then b\<lparr>failureCount := 0\<rparr>
      else b)"

definition onFailure :: "int \<Rightarrow> thrown \<Rightarrow> CircuitBreaker \<Rightarrow> CircuitBreaker" where
  "onFailure now err b =
     (let b0 = b\<lparr>lastError := Some err\<rparr> in
      if state b0 = HALF_OPEN then toOpen now b0
      else if state b0 = CLOSED then
        (let b1 = b0\<lparr>failureCount := failureCount b0 + 1\<rparr> in
         if failureCount b1 \<ge> failureThreshold (options b1) then toOpen now b1 else b1)
      else b0)"

text \<open>
  The state a protected operation runs in: the breaker of the service, the clock
  (\<^verbatim>\<open>Date.now()\<close>, in milliseconds) and the number of requests handed to the HTTP
  client so far.
\<close>

record Sys =
  breaker :: CircuitBreaker
  clock :: int
  attempts :: nat

text \<open>
  The message of the rejection thrown while the circuit is open.
\<close>

definition openMessage :: "CircuitBreaker \<Rightarrow> string" where
  "openMessage b =
     ''Service unavailable - Circuit Breaker Open'' @
     (case lastError b of None \<Rightarrow> '''' | Some e \<Rightarrow> '': '' @ thrownMessage e)"

text \<open>
  \<^verbatim>\<open>execute(fn)\<close>. An asynchronous operation is a function from the state it starts
  in to its outcome (\<open>Inl\<close> a thrown value, \<open>Inr\<close> the resolved value) and the state
  it leaves; it may itself use the breaker.
\<close>

definition execute :: "(Sys \<Rightarrow> (thrown + 'a) \<times> Sys) \<Rightarrow> Sys \<Rightarrow> (thrown + 'a) \<times> Sys" where
  "execute fn s =
     (if state (breaker s) = OPEN \<and> \<not> clock s > nextAttempt (breaker s) then
        (Inl (JsError (openMessage (breaker s))), s)
      else
        (let s1 = (if state (breaker s) = OPEN then s\<lparr>breaker := toHalfOpen (breaker s)\<rparr> else s)
         in case fn s1 of
              (Inr result, s2) \<Rightarrow> (Inr result, s2\<lparr>breaker := onSuccess (breaker s2)\<rparr>)
            | (Inl error, s2) \<Rightarrow>
                (Inl error, s2\<lparr>breaker := onFailure (clock s2) (asError error) (breaker s2)\<rparr>)))"

text \<open>\<^verbatim>\<open>getStatus()\<close>, read at time \<open>now\<close>.\<close>

record CircuitStatus =
  st_state :: CircuitBreakerState
  st_failureCount :: int
  st_successCount :: int
  st_nextAttempt :: int
  st_remainingTimeMs :: int

definition getStatus :: "int \<Rightarrow> CircuitBreaker \<Rightarrow> CircuitStatus" where
  "getStatus now b =
     \<lparr>st_state = state b, st_failureCount = failureCount b, st_successCount = successCount b,
      st_nextAttempt = nextAttempt b, st_remainingTimeMs = max 0 (nextAttempt b - now)\<rparr>"

section \<open>The API service\<close>

record ApiError =
  code :: string
  message :: string

record 'a ApiResponse =
  data :: "'a option"
  error :: "ApiError option"
  status :: int
  success :: bool

text \<open>The body of a response is opaque to this layer.\<close>

type_synonym payload = string

text \<open>
  The HTTP client, as the service sees it: the \<open>i\<close>-th request handed to it takes
  some time and then either rejects with a thrown value or resolves with a status
  and a body.
\<close>

type_synonym transport = "nat \<Rightarrow> int \<times> (thrown + int \<times> payload)"

text \<open>\<^verbatim>\<open>await this.client.get(url, config)\<close> and \<^verbatim>\<open>await this.client.post(url, data, config)\<close>.\<close>

definition request :: "transport \<Rightarrow> Sys \<Rightarrow> (thrown + int \<times> payload) \<times> Sys" where
  "request tr s =
     (case tr (attempts s) of
        (elapsed, outcome) \<Rightarrow> (outcome, s\<lparr>clock := clock s + elapsed, attempts := attempts s + 1\<rparr>))"

text \<open>\<^verbatim>\<open>await new Promise(resolve => setTimeout(resolve, delay))\<close>, the timer firing on time.\<close>

definition sleep :: "int \<Rightarrow> Sys \<Rightarrow> Sys" where
  "sleep delay s = s\<lparr>clock := clock s + max 0 delay\<rparr>"

text \<open>Decimal rendering of a number inside a template string.\<close>

fun digitsOf :: "nat \<Rightarrow> string" where
  "digitsOf n =
     (if n < 10 then [char_of (48 + n)] else digitsOf (n div 10) @ [char_of (48 + n mod 10)])"

definition showInt :: "int \<Rightarrow> string" where
  "showInt i = (if i < 0 then ''-'' @ digitsOf (nat (- i)) else digitsOf (nat i))"

text \<open>\<^verbatim>\<open>errorCodeMap[statusCode || 500] || 'API_ERROR'\<close>\<close>

definition errorCodeMap :: "int \<rightharpoonup> string" where
  "errorCodeMap =
     [400 \<mapsto> ''BAD_REQUEST'', 401 \<mapsto> ''UNAUTHORIZED'', 403 \<mapsto> ''FORBIDDEN'',
      404 \<mapsto> ''NOT_FOUND'', 429 \<mapsto> ''RATE_LIMITED'', 500 \<mapsto> ''INTERNAL_SERVER_ERROR'',
      502 \<mapsto> ''BAD_GATEWAY'', 503 \<mapsto> ''SERVICE_UNAVAILABLE'', 504 \<mapsto> ''GATEWAY_TIMEOUT'']"

text \<open>JavaScript truthiness of an optional number and of an optional string.\<close>

definition truthyNum :: "int option \<Rightarrow> bool" where
  "truthyNum x = (case x of None \<Rightarrow> False | Some n \<Rightarrow> n \<noteq> 0)"

definition truthyStr :: "string option \<Rightarrow> bool" where
  "truthyStr x = (case x of None \<Rightarrow> False | Some t \<Rightarrow> t \<noteq> [])"

text \<open>
  \<^verbatim>\<open>handleError\<close>; the \<^verbatim>\<open>details\<close> field, which no caller in this layer reads,
  is left out.
\<close>

fun handleError :: "thrown \<Rightarrow> ApiError" where
  "handleError (AxiosError msg statusCode c serverMessage) =
     \<lparr>code = (case errorCodeMap (if truthyNum statusCode then the statusCode else 500) of
                Some errorCode \<Rightarrow> errorCode | None \<Rightarrow> ''API_ERROR''),
      message = (if truthyStr serverMessage then the serverMessage
                 else if msg \<noteq> [] then msg
                 else ''HTTP Error '' @
                      (case statusCode of None \<Rightarrow> ''undefined'' | Some n \<Rightarrow> showInt n))\<rparr>"
| "handleError (JsError msg) = \<lparr>code = ''CLIENT_ERROR'', message = msg\<rparr>"
| "handleError (NonError repr) =
     \<lparr>code = ''UNKNOWN_ERROR'', message = ''An unexpected error occurred''\<rparr>"

fun isRetryableError :: "thrown \<Rightarrow> bool" where
  "isRetryableError (AxiosError msg st c serverMessage) =
     (if \<not> truthyNum st \<or> st = Some 429 \<or> st = Some 503 \<or> st = Some 504 then True
      else if c = Some ''ECONNRESET'' \<or> c = Some ''ETIMEDOUT'' then True
      else False)"
| "isRetryableError e = False"

fun getErrorStatus :: "thrown \<Rightarrow> int" where
  "getErrorStatus (AxiosError msg (Some st) c serverMessage) = st"
| "getErrorStatus e = 0"

lemma execute_cong [fundef_cong]:
  "s = s' \<Longrightarrow> (\<And>x. fn x = fn' x) \<Longrightarrow> execute fn s = execute fn' s'"
  by (simp add: execute_def)

text \<open>
  \<^verbatim>\<open>get(url, config, retries = 2)\<close>. The URL and the request configuration only
  select what the transport answers, so they are part of \<open>tr\<close>.
\<close>

function get :: "transport \<Rightarrow> int \<Rightarrow> Sys \<Rightarrow> payload ApiResponse \<times> Sys" where
  "get tr retries s =
     (case execute
             (\<lambda>s1. case request tr s1 of
                      (Inr (st, body), s2) \<Rightarrow>
                        (Inr \<lparr>data = Some body, error = None, status = st, success = True\<rparr>, s2)
                    | (Inl err, s2) \<Rightarrow>
                        if retries > 0 \<and> isRetryableError err then
                          (case get tr (retries - 1) (sleep (1000 * (3 - retries)) s2) of
                             (response, s3) \<Rightarrow> (Inr response, s3))
                        else (Inl err, s2))
             s of
        (Inr response, s') \<Rightarrow> (response, s')
      | (Inl err, s') \<Rightarrow>
          (\<lparr>data = None, error = Some (handleError err), status = getErrorStatus err,
            success = False\<rparr>, s'))"
  by pat_completeness auto
termination
  by (relation "measure (\<lambda>(tr, retries, s). nat retries)") auto

declare get.simps [simp del]

text \<open>
  \<^verbatim>\<open>post(url, data, config, retries = 2)\<close>, the same code around
  \<^verbatim>\<open>this.client.post\<close>.
\<close>

function post :: "transport \<Rightarrow> int \<Rightarrow> Sys \<Rightarrow> payload ApiResponse \<times> Sys" where
  "post tr retries s =
     (case execute
             (\<lambda>s1. case request tr s1 of
                      (Inr (st, body), s2) \<Rightarrow>
                        (Inr \<lparr>data = Some body, error = None, status = st, success = True\<rparr>, s2)
                    | (Inl err, s2) \<Rightarrow>
                        if retries > 0 \<and> isRetryableError err then
                          (case post tr (retries - 1) (sleep (1000 * (3 - retries)) s2) of
                             (response, s3) \<Rightarrow> (Inr response, s3))
                        else (Inl err, s2))
             s of
        (Inr response, s') \<Rightarrow> (response, s')
      | (Inl err, s') \<Rightarrow>
          (\<lparr>data = None, error = Some (handleError err), status = getErrorStatus err,
            success = False\<rparr>, s'))"
  by pat_completeness auto
termination
  by (relation "measure (\<lambda>(tr, retries, s). nat retries)") auto

declare post.simps [simp del]

section \<open>The service adapters\<close>

text \<open>
  The adapters extend a base class \<^verbatim>\<open>ApiService\<close> whose file is not among the
  sources. What they use of it is taken as follows: \<^verbatim>\<open>this.config\<close> is the
  configuration record passed to the constructor; \<^verbatim>\<open>this.post(url, body)\<close> is a
  parameter \<open>post\<close>, an asynchronous operation on the service state that resolves
  with a response or throws; \<^verbatim>\<open>this.handleError\<close> is the \<open>handleError\<close> above.
\<close>

record ApiServiceConfig =
  baseUrl :: string
  apiKey :: "string option"

type_synonym 'a poster = "Sys \<Rightarrow> (thrown + 'a ApiResponse) \<times> Sys"

text \<open>\<^verbatim>\<open>GrokService.getSuggestions\<close>\<close>

definition GrokService_getSuggestions ::
    "ApiServiceConfig \<Rightarrow> payload poster \<Rightarrow> Sys \<Rightarrow> payload ApiResponse \<times> Sys" where
  "GrokService_getSuggestions config post_fn s =
     (if \<not> truthyStr (apiKey config) then
        (\<lparr>data = None,
          error = Some \<lparr>code = ''GROK_AUTH_ERROR'', message = ''No API key provided for Grok AI''\<rparr>,
          status = 401, success = False\<rparr>, s)
      else
        (case post_fn s of
           (Inr response, s') \<Rightarrow> (response, s')
         | (Inl err, s') \<Rightarrow>
             (\<lparr>data = None, error = Some (handleError err), status = 500, success = False\<rparr>, s')))"

text \<open>
  \<^verbatim>\<open>AnthropicService.query\<close>; \<open>shape\<close> is the rewriting of the provider's body into
  a \<^verbatim>\<open>LanguageResponse\<close>.
\<close>

definition AnthropicService_query ::
    "ApiServiceConfig \<Rightarrow> (payload \<Rightarrow> payload) \<Rightarrow> payload poster \<Rightarrow> Sys
       \<Rightarrow> payload ApiResponse \<times> Sys" where
  "AnthropicService_query config shape post_fn s =
     (if \<not> truthyStr (apiKey config) then
        (\<lparr>data = None,
          error = Some \<lparr>code = ''ANTHROPIC_AUTH_ERROR'',
                         message = ''No API key provided for Anthropic Claude''\<rparr>,
          status = 401, success = False\<rparr>, s)
      else
        (case post_fn s of
           (Inr response, s') \<Rightarrow>
             (case data response of
                Some claudeResponse \<Rightarrow>
                  if success response then
                    (\<lparr>data = Some (shape claudeResponse), error = None,
                      status = status response, success = True\<rparr>, s')
                  else (response, s')
              | None \<Rightarrow> (response, s'))
         | (Inl err, s') \<Rightarrow>
             (\<lparr>data = None, error = Some (handleError err), status = 500, success = False\<rparr>, s')))"

text \<open>\<^verbatim>\<open>PerplexityService.query\<close>\<close>

definition PerplexityService_query ::
    "ApiServiceConfig \<Rightarrow> payload poster \<Rightarrow> Sys \<Rightarrow> payload ApiResponse \<times> Sys" where
  "PerplexityService_query config post_fn s =
     (if \<not> truthyStr (apiKey config) then
        (\<lparr>data = None,
          error = Some \<lparr>code = ''PERPLEXITY_AUTH_ERROR'',
                         message = ''No API key provided for Perplexity AI''\<rparr>,
          status = 401, success = False\<rparr>, s)
      else
        (case post_fn s of
           (Inr response, s') \<Rightarrow> (response, s')
         | (Inl err, s') \<Rightarrow>
             (\<lparr>data = None, error = Some (handleError err), status = 500, success = False\<rparr>, s')))"

text \<open>The image adapter and its fallback.\<close>

record ImageGenerationResponse =
  url :: string
  prompt :: string
  img_error :: "ApiError option"
  fallback :: "bool option"

record FluxService =
  config :: ApiServiceConfig
  fallbackEnabled :: bool
  fallbackImages :: "string list"
  placeholderUrl :: string

text \<open>
  \<^verbatim>\<open>getFallbackImage\<close>; \<open>randomIndex\<close> is the value of
  \<^verbatim>\<open>Math.floor(Math.random() * this.fallbackImages.length)\<close>, below the length.
\<close>

definition getFallbackImage :: "FluxService \<Rightarrow> nat \<Rightarrow> string" where
  "getFallbackImage svc randomIndex =
     (if \<not> fallbackEnabled svc \<or> length (fallbackImages svc) = 0 then placeholderUrl svc
      else fallbackImages svc ! randomIndex)"

definition createFallbackResponse ::
    "FluxService \<Rightarrow> nat \<Rightarrow> string \<Rightarrow> string \<Rightarrow> ImageGenerationResponse ApiResponse" where
  "createFallbackResponse svc randomIndex p errorMessage =
     \<lparr>data = Some \<lparr>url = getFallbackImage svc randomIndex, prompt = p,
                    img_error = Some \<lparr>code = ''FALLBACK_USED'', message = errorMessage\<rparr>,
                    fallback = Some True\<rparr>,
      error = None, status = 200, success = True\<rparr>"

text \<open>\<^verbatim>\<open>FluxService.generateImage\<close>; \<open>p\<close> is \<^verbatim>\<open>request.prompt\<close>.\<close>

definition FluxService_generateImage ::
    "FluxService \<Rightarrow> nat \<Rightarrow> string \<Rightarrow> ImageGenerationResponse poster \<Rightarrow> Sys
       \<Rightarrow> ImageGenerationResponse ApiResponse \<times> Sys" where
  "FluxService_generateImage svc randomIndex p post_fn s =
     (if \<not> truthyStr (apiKey (config svc)) then
        (createFallbackResponse svc randomIndex p ''No API token configured'', s)
      else
        (case post_fn s of
           (Inr response, s') \<Rightarrow>
             if \<not> success response \<and> fallbackEnabled svc then
               (createFallbackResponse svc randomIndex p
                  (case error response of
                     Some e \<Rightarrow> if message e \<noteq> [] then message e else ''Failed to generate image''
                   | None \<Rightarrow> ''Failed to generate image''), s')
             else (response, s')
         | (Inl err, s') \<Rightarrow> (createFallbackResponse svc randomIndex p (thrownMessage err), s')))"

section \<open>The call algorithm as specified\<close>

text \<open>
  The specification describes the client as
  \<^verbatim>\<open>circuitBreaker.execute(() -> attempt(requestFn, retries))\<close>: \<open>spec_attempt\<close>
  invokes the request; on a failure that is retryable while \<open>retries > 0\<close> it waits
  \<^verbatim>\<open>baseBackoffMs * (maxRetries - retries + 1)\<close> (here \<open>1000\<close> and \<open>2\<close>, the
  constants of the code) and recurses with \<open>retries - 1\<close>; otherwise it returns the
  failure. \<open>spec_call\<close> runs it once inside the breaker. These two follow the
  specification's words, not the source, and serve only for comparison with \<open>get\<close>
  and \<open>post\<close>.
\<close>

function spec_attempt ::
    "transport \<Rightarrow> int \<Rightarrow> Sys \<Rightarrow> (thrown + payload ApiResponse) \<times> Sys" where
  "spec_attempt tr retries s =
     (case request tr s of
        (Inr (st, body), s2) \<Rightarrow>
          (Inr \<lparr>data = Some body, error = None, status = st, success = True\<rparr>, s2)
      | (Inl err, s2) \<Rightarrow>
          if isRetryableError err \<and> retries > 0 then
            spec_attempt tr (retries - 1) (sleep (1000 * (2 - retries + 1)) s2)
          else (Inl err, s2))"
  by pat_completeness auto
termination
  by (relation "measure (\<lambda>(tr, retries, s). nat retries)") auto

declare spec_attempt.simps [simp del]

definition spec_call :: "transport \<Rightarrow> int \<Rightarrow> Sys \<Rightarrow> payload ApiResponse \<times> Sys" where
  "spec_call tr retries s =
     (case execute (spec_attempt tr retries) s of
        (Inr response, s') \<Rightarrow> (response, s')
      | (Inl err, s') \<Rightarrow>
          (\<lparr>data = None, error = Some (handleError err), status = getErrorStatus err,
            success = False\<rparr>, s'))"

section \<open>Properties and sample inputs\<close>

text \<open>The constraints the configuration is documented to satisfy.\<close>

definition validOptions :: "CircuitBreakerOptions \<Rightarrow> bool" where
  "validOptions opts =
     (failureThreshold opts \<ge> 1 \<and> successThreshold opts \<ge> 1 \<and> timeout opts > 0)"

definition thresholdInvariant :: "CircuitBreaker \<Rightarrow> bool" where
  "thresholdInvariant b =
     ((if state b = CLOSED then failureCount b < failureThreshold (options b) else True) \<and>
      (if state b = HALF_OPEN then successCount b < successThreshold (options b) else True))"

text \<open>A caller issuing protected calls one after the other.\<close>

fun executeAll :: "(Sys \<Rightarrow> (thrown + 'a) \<times> Sys) list \<Rightarrow> Sys \<Rightarrow> Sys" where
  "executeAll [] s = s"
| "executeAll (fn # fns) s = executeAll fns (snd (execute fn s))"

text \<open>The defaults of the service: thresholds 3 and 2, thirty seconds open.\<close>

definition defaultOptions :: CircuitBreakerOptions where
  "defaultOptions = \<lparr>failureThreshold = 3, successThreshold = 2, timeout = 30000\<rparr>"

definition freshSys :: Sys where
  "freshSys = \<lparr>breaker = newCircuitBreaker defaultOptions, clock = 0, attempts = 0\<rparr>"

text \<open>A breaker that opened at time 1000 after a gateway timeout.\<close>

definition openSys :: "int \<Rightarrow> Sys" where
  "openSys now =
     \<lparr>breaker = \<lparr>state = OPEN, failureCount = 3, successCount = 0, nextAttempt = 31000,
                  lastError = Some (JsError ''gateway timeout''), options = defaultOptions,
                  emitted = [(CLOSED, OPEN)]\<rparr>,
      clock = now, attempts = 7\<rparr>"

text \<open>A breaker probing the service, one success recorded.\<close>

definition halfOpenSys :: Sys where
  "halfOpenSys =
     \<lparr>breaker = \<lparr>state = HALF_OPEN, failureCount = 3, successCount = 1, nextAttempt = 31000,
                  lastError = Some (JsError ''gateway timeout''), options = defaultOptions,
                  emitted = [(CLOSED, OPEN), (OPEN, HALF_OPEN)]\<rparr>,
      clock = 40000, attempts = 8\<rparr>"

text \<open>A transport on which every request is answered 503 after 100 ms.\<close>

definition always503 :: transport where
  "always503 = (\<lambda>i. (100, Inl (AxiosError ''Request failed with status code 503''
                                   (Some 503) (Some ''ERR_BAD_RESPONSE'') None)))"

text \<open>A transport on which every request is answered 404 after 100 ms.\<close>

definition always404 :: transport where
  "always404 = (\<lambda>i. (100, Inl (AxiosError ''Request failed with status code 404''
                                   (Some 404) (Some ''ERR_BAD_REQUEST'') None)))"

text \<open>Operations that fail, or succeed, after 100 ms without touching the breaker.\<close>

definition failingOp :: "Sys \<Rightarrow> (thrown + unit) \<times> Sys" where
  "failingOp s = (Inl (JsError ''boom''), s\<lparr>clock := clock s + 100\<rparr>)"

definition succeedingOp :: "Sys \<Rightarrow> (thrown + unit) \<times> Sys" where
  "succeedingOp s = (Inr (), s\<lparr>clock := clock s + 100\<rparr>)"

definition noKeyConfig :: ApiServiceConfig where
  "noKeyConfig = \<lparr>baseUrl = ''https://api.example.test'', apiKey = None\<rparr>"

definition noKeyFlux :: FluxService where
  "noKeyFlux =
     \<lparr>config = noKeyConfig, fallbackEnabled = True,
      fallbackImages = [''/fallback/language-1.svg'', ''/fallback/language-2.svg'',
                        ''/fallback/language-3.svg''],
      placeholderUrl = ''/fallback/image-placeholder.svg''\<rparr>"

text \<open>
  \<^verbatim>\<open>this.post(url, body)\<close> with the default retry count, as an operation an adapter
  awaits, and an image endpoint that answers at once.
\<close>

definition servicePost :: "transport \<Rightarrow> payload poster" where
  "servicePost tr s = (case post tr 2 s of (response, s') \<Rightarrow> (Inr response, s'))"

definition imagePost :: "ImageGenerationResponse poster" where
  "imagePost s =
     (Inr \<lparr>data = Some \<lparr>url = ''https://img.example.test/fox.png'', prompt = ''a red fox'',
                         img_error = None, fallback = None\<rparr>,
           error = None, status = 200, success = True\<rparr>,
      s\<lparr>clock := clock s + 100, attempts := attempts s + 1\<rparr>)"

section \<open>Auxiliary facts\<close>

lemma changeState_fields [simp]:
  "state (changeState to b) = to"
  "failureCount (changeState to b) = failureCount b"
  "successCount (changeState to b) = successCount b"
  "nextAttempt (changeState to b) = nextAttempt b"
  "lastError (changeState to b) = lastError b"
  "options (changeState to b) = options b"
  by (simp_all add: changeState_def)

lemma onSuccess_keeps_invariant:
  assumes "validOptions (options b)" and "thresholdInvariant b"
  shows "validOptions (options (onSuccess b)) \<and> thresholdInvariant (onSuccess b)"
  using assms
  by (auto simp add: onSuccess_def thresholdInvariant_def validOptions_def reset_def Let_def
           split: if_splits)

lemma onFailure_keeps_invariant:
  assumes "validOptions (options b)" and "thresholdInvariant b"
  shows "validOptions (options (onFailure now e b)) \<and> thresholdInvariant (onFailure now e b)"
  using assms
  by (auto simp add: onFailure_def thresholdInvariant_def validOptions_def toOpen_def Let_def
           split: if_splits)

lemma toHalfOpen_keeps_invariant:
  assumes "validOptions (options b)"
  shows "validOptions (options (toHalfOpen b)) \<and> thresholdInvariant (toHalfOpen b)"
  using assms by (auto simp add: toHalfOpen_def thresholdInvariant_def validOptions_def)

lemma reset_keeps_invariant:
  assumes "validOptions (options b)"
  shows "validOptions (options (reset b)) \<and> thresholdInvariant (reset b)"
  using assms by (auto simp add: reset_def thresholdInvariant_def validOptions_def)

lemma execute_keeps_invariant:
  assumes inv: "validOptions (options (breaker s))" "thresholdInvariant (breaker s)"
    and op: "\<And>x. validOptions (options (breaker x)) \<and> thresholdInvariant (breaker x) \<Longrightarrow>
                 validOptions (options (breaker (snd (fn x)))) \<and>
                 thresholdInvariant (breaker (snd (fn x)))"
  shows "validOptions (options (breaker (snd (execute fn s)))) \<and>
         thresholdInvariant (breaker (snd (execute fn s)))"
proof (cases "state (breaker s) = OPEN \<and> \<not> clock s > nextAttempt (breaker s)")
  case True
  then show ?thesis using inv by (simp add: execute_def)
next
  case False
  define s1 where "s1 = (if state (breaker s) = OPEN then s\<lparr>breaker := toHalfOpen (breaker s)\<rparr> else s)"
  have s1: "validOptions (options (breaker s1)) \<and> thresholdInvariant (breaker s1)"
    using inv toHalfOpen_keeps_invariant [of "breaker s"] by (simp add: s1_def)
  obtain r s2 where f: "fn s1 = (r, s2)" by (cases "fn s1")
  have s2: "validOptions (options (breaker s2)) \<and> thresholdInvariant (breaker s2)"
    using op [OF s1] f by simp
  show ?thesis
  proof (cases r)
    case (Inl e)
    have "snd (execute fn s) = s2\<lparr>breaker := onFailure (clock s2) (asError e) (breaker s2)\<rparr>"
      using False f Inl by (auto simp add: execute_def s1_def [symmetric])
    then show ?thesis using s2 onFailure_keeps_invariant by simp
  next
    case (Inr v)
    have "snd (execute fn s) = s2\<lparr>breaker := onSuccess (breaker s2)\<rparr>"
      using False f Inr by (auto simp add: execute_def s1_def [symmetric])
    then show ?thesis using s2 onSuccess_keeps_invariant by simp
  qed
qed

lemma executeAll_snoc:
  "executeAll (fns @ [fn]) s = snd (execute fn (executeAll fns s))"
  by (induction fns arbitrary: s) simp_all

lemma executeAll_failures_below_threshold:
  assumes "state (breaker s) = CLOSED"
    and "\<forall>fn \<in> set fns. \<forall>x. isl (fst (fn x)) \<and> breaker (snd (fn x)) = breaker x"
    and "failureCount (breaker s) + int (length fns) < failureThreshold (options (breaker s))"
  shows "state (breaker (executeAll fns s)) = CLOSED \<and>
         failureCount (breaker (executeAll fns s)) = failureCount (breaker s) + int (length fns) \<and>
         successCount (breaker (executeAll fns s)) = successCount (breaker s) \<and>
         options (breaker (executeAll fns s)) = options (breaker s)"
  using assms
proof (induction fns arbitrary: s)
  case Nil
  then show ?case by simp
next
  case (Cons fn fns)
  obtain r s2 where f: "fn s = (r, s2)" by (cases "fn s")
  from Cons.prems(2) f obtain e where r: "r = Inl e" and b2: "breaker s2 = breaker s"
    by (cases r) (auto dest: spec [of _ s])
  let ?s' = "snd (execute fn s)"
  have step: "state (breaker ?s') = CLOSED \<and>
              failureCount (breaker ?s') = failureCount (breaker s) + 1 \<and>
              successCount (breaker ?s') = successCount (breaker s) \<and>
              options (breaker ?s') = options (breaker s)"
    using Cons.prems(1,3) f r b2 by (simp add: execute_def onFailure_def Let_def)
  have "state (breaker (executeAll fns ?s')) = CLOSED \<and>
        failureCount (breaker (executeAll fns ?s')) = failureCount (breaker ?s') + int (length fns) \<and>
        successCount (breaker (executeAll fns ?s')) = successCount (breaker ?s') \<and>
        options (breaker (executeAll fns ?s')) = options (breaker ?s')"
    using Cons.prems(2,3) step by (intro Cons.IH) auto
  with step show ?case by simp
qed


lemmas breaker_defs =
  execute_def onFailure_def onSuccess_def toOpen_def toHalfOpen_def reset_def changeState_def
  newCircuitBreaker_def defaultOptions_def openMessage_def Let_def

lemmas sample_defs =
  freshSys_def openSys_def halfOpenSys_def failingOp_def succeedingOp_def always503_def
  always404_def noKeyConfig_def noKeyFlux_def servicePost_def imagePost_def

lemmas client_defs = request_def sleep_def truthyNum_def truthyStr_def errorCodeMap_def

text \<open>
  One level of \<open>get\<close> with \<^verbatim>\<open>execute\<close> unfolded: the recursive call is itself a
  protected call, and what it returns is a resolved value of the enclosing operation.
\<close>

lemma get_unfold:
  "get tr retries s =
     (if state (breaker s) = OPEN \<and> \<not> clock s > nextAttempt (breaker s) then
        (\<lparr>data = None, error = Some (handleError (JsError (openMessage (breaker s)))),
          status = 0, success = False\<rparr>, s)
      else
        (let s1 = (if state (breaker s) = OPEN then s\<lparr>breaker := toHalfOpen (breaker s)\<rparr> else s)
         in case request tr s1 of
              (Inr (st, body), s2) \<Rightarrow>
                (\<lparr>data = Some body, error = None, status = st, success = True\<rparr>,
                 s2\<lparr>breaker := onSuccess (breaker s2)\<rparr>)
            | (Inl err, s2) \<Rightarrow>
                if retries > 0 \<and> isRetryableError err then
                  (case get tr (retries - 1) (sleep (1000 * (3 - retries)) s2) of
                     (response, s3) \<Rightarrow> (response, s3\<lparr>breaker := onSuccess (breaker s3)\<rparr>))
                else
                  (\<lparr>data = None, error = Some (handleError err), status = getErrorStatus err,
                    success = False\<rparr>,
                   s2\<lparr>breaker := onFailure (clock s2) (asError err) (breaker s2)\<rparr>)))"
  by (subst get.simps) (auto simp add: execute_def Let_def split: prod.splits sum.splits)

lemma post_unfold:
  "post tr retries s =
     (if state (breaker s) = OPEN \<and> \<not> clock s > nextAttempt (breaker s) then
        (\<lparr>data = None, error = Some (handleError (JsError (openMessage (breaker s)))),
          status = 0, success = False\<rparr>, s)
      else
        (let s1 = (if state (breaker s) = OPEN then s\<lparr>breaker := toHalfOpen (breaker s)\<rparr> else s)
         in case request tr s1 of
              (Inr (st, body), s2) \<Rightarrow>
                (\<lparr>data = Some body, error = None, status = st, success = True\<rparr>,
                 s2\<lparr>breaker := onSuccess (breaker s2)\<rparr>)
            | (Inl err, s2) \<Rightarrow>
                if retries > 0 \<and> isRetryableError err then
                  (case post tr (retries - 1) (sleep (1000 * (3 - retries)) s2) of
                     (response, s3) \<Rightarrow> (response, s3\<lparr>breaker := onSuccess (breaker s3)\<rparr>))
                else
                  (\<lparr>data = None, error = Some (handleError err), status = getErrorStatus err,
                    success = False\<rparr>,
                   s2\<lparr>breaker := onFailure (clock s2) (asError err) (breaker s2)\<rparr>)))"
  by (subst post.simps) (auto simp add: execute_def Let_def split: prod.splits sum.splits)

lemma post_eq_get: "post tr r s = get tr r s"
proof (induction "nat r" arbitrary: r s rule: less_induct)
  case less
  have IH: "post tr (r - 1) s' = get tr (r - 1) s'" if "0 < r" for s'
    using less [of "r - 1" s'] that by auto
  show ?case
    by (subst post_unfold, subst get_unfold)
       (auto simp add: Let_def IH split: prod.splits sum.splits)
qed

lemma get_attempts:
  "attempts s \<le> attempts (snd (get tr r s)) \<and>
   attempts (snd (get tr r s)) \<le> attempts s + nat r + 1"
proof (induction "nat r" arbitrary: r s rule: less_induct)
  case less
  have IH: "attempts s' \<le> attempts (snd (get tr (r - 1) s')) \<and>
            attempts (snd (get tr (r - 1) s')) \<le> attempts s' + nat r" if "0 < r" for s'
    using less [of "r - 1" s'] that by auto
  show ?case
  proof (cases "state (breaker s) = OPEN \<and> \<not> clock s > nextAttempt (breaker s)")
    case True
    then show ?thesis by (subst (1 2) get_unfold) simp
  next
    case False
    define s1 where
      "s1 = (if state (breaker s) = OPEN then s\<lparr>breaker := toHalfOpen (breaker s)\<rparr> else s)"
    have a1: "attempts s1 = attempts s" by (simp add: s1_def)
    obtain out s2 where req: "request tr s1 = (out, s2)" by (cases "request tr s1")
    have a2: "attempts s2 = attempts s + 1"
      using req a1 by (auto simp add: request_def split: prod.splits)
    show ?thesis
    proof (cases "\<exists>err. out = Inl err \<and> 0 < r \<and> isRetryableError err")
      case True
      then obtain err where e: "out = Inl err" "0 < r" "isRetryableError err" by blast
      obtain resp s3 where g: "get tr (r - 1) (sleep (1000 * (3 - r)) s2) = (resp, s3)"
        by (cases "get tr (r - 1) (sleep (1000 * (3 - r)) s2)")
      have "attempts (sleep (1000 * (3 - r)) s2) = attempts s2" by (simp add: sleep_def)
      with IH [OF e(2), of "sleep (1000 * (3 - r)) s2"] g a2
      have "attempts s \<le> attempts s3 \<and> attempts s3 \<le> attempts s + nat r + 1" by simp
      moreover have "snd (get tr r s) = s3\<lparr>breaker := onSuccess (breaker s3)\<rparr>"
        using False req e g by (subst get_unfold) (auto simp add: s1_def [symmetric])
      ultimately show ?thesis by simp
    next
      case stop: False
      have "attempts (snd (get tr r s)) = attempts s2"
        using False req stop
        by (subst get_unfold) (auto simp add: s1_def [symmetric] split: sum.splits)
      with a2 show ?thesis by simp
    qed
  qed
qed

lemma get_single_attempt:
  assumes "\<not> (state (breaker s) = OPEN \<and> clock s \<le> nextAttempt (breaker s))"
    and "tr (attempts s) = (elapsed, Inl err)"
    and "\<not> isRetryableError err"
  shows "attempts (snd (get tr r s)) = attempts s + 1"
  using assms
  by (subst get_unfold) (auto simp add: Let_def request_def split: prod.splits sum.splits)

text \<open>
  While every request fails with a retryable error and the breaker is \<open>CLOSED\<close> with
  room for one more failure, a call that retries at least once ends with
  \<open>failureCount = 0\<close>: the failure is counted by the innermost level and wiped by the
  success every enclosing level records.
\<close>

lemma retryable_failures_masked:
  assumes tr: "\<And>i. \<exists>elapsed e. tr i = (elapsed, Inl e) \<and> isRetryableError e"
    and closed: "state (breaker s) = CLOSED"
    and room: "failureCount (breaker s) + 1 < failureThreshold (options (breaker s))"
  shows "state (breaker (snd (get tr r s))) = CLOSED \<and>
         options (breaker (snd (get tr r s))) = options (breaker s) \<and>
         \<not> success (fst (get tr r s)) \<and>
         failureCount (breaker (snd (get tr r s))) =
           (if 0 < r then 0 else failureCount (breaker s) + 1)"
  using closed room
proof (induction "nat r" arbitrary: r s rule: less_induct)
  case less
  obtain elapsed e where out: "tr (attempts s) = (elapsed, Inl e)" and re: "isRetryableError e"
    using tr [of "attempts s"] by blast
  define s2 where "s2 = s\<lparr>clock := clock s + elapsed, attempts := attempts s + 1\<rparr>"
  have req: "request tr s = (Inl e, s2)" by (simp add: request_def out s2_def)
  show ?case
  proof (cases "0 < r")
    case False
    then show ?thesis
      using less.prems req
      by (subst (1 2 3 4) get_unfold) (simp add: onFailure_def s2_def Let_def)
  next
    case True
    define s3 where "s3 = sleep (1000 * (3 - r)) s2"
    have b3: "breaker s3 = breaker s" by (simp add: s3_def s2_def sleep_def)
    obtain resp s4 where g: "get tr (r - 1) s3 = (resp, s4)" by (cases "get tr (r - 1) s3")
    have "state (breaker (snd (get tr (r - 1) s3))) = CLOSED \<and>
          options (breaker (snd (get tr (r - 1) s3))) = options (breaker s3) \<and>
          \<not> success (fst (get tr (r - 1) s3)) \<and>
          failureCount (breaker (snd (get tr (r - 1) s3))) =
            (if 0 < r - 1 then 0 else failureCount (breaker s3) + 1)"
      using True less.prems b3 by (intro less.hyps) auto
    with g b3 have inner: "state (breaker s4) = CLOSED" "options (breaker s4) = options (breaker s)"
      "\<not> success resp" by simp_all
    have "get tr r s = (resp, s4\<lparr>breaker := onSuccess (breaker s4)\<rparr>)"
      using less.prems(1) req re True g
      by (subst get_unfold) (simp add: s3_def)
    then show ?thesis using inner True by (simp add: onSuccess_def)
  qed
qed

section \<open>Claims\<close>

text \<open>
  Claim C2. For every failure threshold \<open>N \<ge> 1\<close>: a breaker that is \<open>CLOSED\<close> with
  \<open>failureCount = 0\<close> and then sees consecutive failed executions (operations that throw
  and leave the breaker alone) is still \<open>CLOSED\<close>, with as many failures counted, after
  fewer than \<open>N\<close> of them; after exactly \<open>N\<close> it is \<open>OPEN\<close>, \<open>nextAttempt\<close> is the time
  of the last failure plus the configured timeout, and \<open>successCount\<close> is zero.
\<close>

theorem closed_opens_after_threshold_failures:
  assumes closed: "state (breaker s) = CLOSED"
    and zero: "failureCount (breaker s) = 0"
    and thr: "failureThreshold (options (breaker s)) = N" "1 \<le> N"
    and fails: "\<forall>fn \<in> set fns. \<forall>x. isl (fst (fn x)) \<and> breaker (snd (fn x)) = breaker x"
  shows "(int (length fns) < N \<longrightarrow>
            state (breaker (executeAll fns s)) = CLOSED \<and>
            failureCount (breaker (executeAll fns s)) = int (length fns)) \<and>
         (int (length fns) = N \<longrightarrow>
            state (breaker (executeAll fns s)) = OPEN \<and>
            nextAttempt (breaker (executeAll fns s)) =
              clock (executeAll fns s) + timeout (options (breaker s)) \<and>
            successCount (breaker (executeAll fns s)) = 0)"
proof (intro conjI impI)
  assume "int (length fns) < N"
  then have "failureCount (breaker s) + int (length fns) < failureThreshold (options (breaker s))"
    using zero thr by simp
  from executeAll_failures_below_threshold [OF closed fails this] zero
  show "state (breaker (executeAll fns s)) = CLOSED"
    and "failureCount (breaker (executeAll fns s)) = int (length fns)"
    by simp_all
next
  assume len: "int (length fns) = N"
  with thr have ne: "fns \<noteq> []" by auto
  define pre where "pre = butlast fns"
  define fn where "fn = last fns"
  have split: "fns = pre @ [fn]" using ne by (simp add: pre_def fn_def)
  have pre_fails: "\<forall>g \<in> set pre. \<forall>x. isl (fst (g x)) \<and> breaker (snd (g x)) = breaker x"
    using fails split by auto
  have fn_fails: "\<forall>x. isl (fst (fn x)) \<and> breaker (snd (fn x)) = breaker x"
    using fails split by auto
  have pre_len: "int (length pre) = N - 1" using len split by simp
  then have "failureCount (breaker s) + int (length pre) < failureThreshold (options (breaker s))"
    using zero thr by simp
  from executeAll_failures_below_threshold [OF closed pre_fails this] zero pre_len thr
  have mid: "state (breaker (executeAll pre s)) = CLOSED"
    "failureCount (breaker (executeAll pre s)) = N - 1"
    "options (breaker (executeAll pre s)) = options (breaker s)"
    by simp_all
  let ?m = "executeAll pre s"
  obtain r s2 where f: "fn ?m = (r, s2)" by (cases "fn ?m")
  from fn_fails f obtain e where r: "r = Inl e" and b2: "breaker s2 = breaker ?m"
    by (cases r) (auto dest: spec [of _ ?m])
  have last: "executeAll fns s =
                s2\<lparr>breaker := onFailure (clock s2) (asError e) (breaker ?m)\<rparr>"
    using split f r b2 mid(1) by (simp add: executeAll_snoc execute_def)
  have opened: "onFailure (clock s2) (asError e) (breaker ?m) =
                  toOpen (clock s2) ((breaker ?m)\<lparr>lastError := Some (asError e),
                                                   failureCount := N\<rparr>)"
    using mid thr by (simp add: onFailure_def Let_def)
  show "state (breaker (executeAll fns s)) = OPEN"
    and "nextAttempt (breaker (executeAll fns s)) =
           clock (executeAll fns s) + timeout (options (breaker s))"
    and "successCount (breaker (executeAll fns s)) = 0"
    using last opened mid(3) by (simp_all add: toOpen_def)
qed

theorem closed_opens_after_threshold_failures_witness:
  "state (breaker freshSys) = CLOSED \<and> failureCount (breaker freshSys) = 0 \<and>
   failureThreshold (options (breaker freshSys)) = 3 \<and>
   state (breaker (executeAll [failingOp, failingOp] freshSys)) = CLOSED \<and>
   failureCount (breaker (executeAll [failingOp, failingOp] freshSys)) = 2 \<and>
   state (breaker (executeAll [failingOp, failingOp, failingOp] freshSys)) = OPEN \<and>
   nextAttempt (breaker (executeAll [failingOp, failingOp, failingOp] freshSys)) = 300 + 30000 \<and>
   successCount (breaker (executeAll [failingOp, failingOp, failingOp] freshSys)) = 0"
proof -
  have pre: "state (breaker freshSys) = CLOSED" "failureCount (breaker freshSys) = 0"
    "failureThreshold (options (breaker freshSys)) = 3" "(1::int) \<le> 3"
    by (simp_all add: freshSys_def newCircuitBreaker_def defaultOptions_def)
  have two: "\<forall>fn \<in> set [failingOp, failingOp]. \<forall>x. isl (fst (fn x)) \<and> breaker (snd (fn x)) = breaker x"
    by (simp add: failingOp_def)
  have three: "\<forall>fn \<in> set [failingOp, failingOp, failingOp]. \<forall>x. isl (fst (fn x)) \<and> breaker (snd (fn x)) = breaker x"
    by (simp add: failingOp_def)
  have clk: "clock (executeAll [failingOp, failingOp, failingOp] freshSys) = 300"
    by (simp add: breaker_defs sample_defs)
  have tmo: "timeout (options (breaker freshSys)) = 30000"
    by (simp add: freshSys_def newCircuitBreaker_def defaultOptions_def)
  show ?thesis
    using closed_opens_after_threshold_failures [OF pre two]
      closed_opens_after_threshold_failures [OF pre three] pre clk tmo
    by simp
qed


text \<open>
  Claim C3. When \<^verbatim>\<open>execute\<close> is invoked while the breaker is \<open>OPEN\<close> and the clock is
  before \<open>nextAttempt\<close>, it throws an error whose message names the open circuit and,
  when there is a \<open>lastError\<close>, appends its message; the outcome is the same whatever
  the wrapped operation is, so the operation is not invoked, and no request is issued.
\<close>

theorem open_rejects_without_invoking:
  assumes "state (breaker s) = OPEN" and "clock s < nextAttempt (breaker s)"
  shows "fst (execute fn s) =
           Inl (JsError (''Service unavailable - Circuit Breaker Open'' @
                  (case lastError (breaker s) of
                     None \<Rightarrow> [] | Some e \<Rightarrow> '': '' @ thrownMessage e))) \<and>
         execute fn s = execute fn' s \<and>
         attempts (snd (execute fn s)) = attempts s"
  using assms by (simp add: execute_def openMessage_def)

theorem open_rejects_without_invoking_witness:
  "state (breaker (openSys 2000)) = OPEN \<and>
   clock (openSys 2000) < nextAttempt (breaker (openSys 2000)) \<and>
   fst (execute (request always503) (openSys 2000)) =
     Inl (JsError ''Service unavailable - Circuit Breaker Open: gateway timeout'') \<and>
   execute (request always503) (openSys 2000) = execute (request always404) (openSys 2000) \<and>
   attempts (snd (execute (request always503) (openSys 2000))) = 7"
proof -
  have pre: "state (breaker (openSys 2000)) = OPEN"
    "clock (openSys 2000) < nextAttempt (breaker (openSys 2000))"
    by (simp_all add: openSys_def)
  note t = open_rejects_without_invoking [OF pre, of "request always503" "request always404"]
  have c1: "fst (execute (request always503) (openSys 2000)) =
              Inl (JsError ''Service unavailable - Circuit Breaker Open: gateway timeout'')"
    using t [THEN conjunct1] by (simp add: openSys_def)
  have c2: "execute (request always503) (openSys 2000) =
              execute (request always404) (openSys 2000)"
    using t [THEN conjunct2, THEN conjunct1] .
  have c3: "attempts (snd (execute (request always503) (openSys 2000))) = 7"
    using t [THEN conjunct2, THEN conjunct2] by (simp add: openSys_def)
  show ?thesis using pre c1 c2 c3 by blast
qed

text \<open>
  Claim C10. A rejection by the open breaker has no effect: the state after the call is
  the state before it, field by field, and \<^verbatim>\<open>getStatus\<close> reports the same values.
\<close>

theorem open_rejection_frame:
  assumes "state (breaker s) = OPEN" and "clock s < nextAttempt (breaker s)"
  shows "snd (execute fn s) = s \<and>
         state (breaker (snd (execute fn s))) = state (breaker s) \<and>
         failureCount (breaker (snd (execute fn s))) = failureCount (breaker s) \<and>
         successCount (breaker (snd (execute fn s))) = successCount (breaker s) \<and>
         nextAttempt (breaker (snd (execute fn s))) = nextAttempt (breaker s) \<and>
         lastError (breaker (snd (execute fn s))) = lastError (breaker s) \<and>
         getStatus now (breaker (snd (execute fn s))) = getStatus now (breaker s)"
  using assms by (simp add: execute_def)

theorem open_rejection_frame_witness:
  "state (breaker (openSys 2000)) = OPEN \<and>
   clock (openSys 2000) < nextAttempt (breaker (openSys 2000)) \<and>
   snd (execute failingOp (openSys 2000)) = openSys 2000 \<and>
   failureCount (breaker (snd (execute failingOp (openSys 2000)))) = 3 \<and>
   nextAttempt (breaker (snd (execute failingOp (openSys 2000)))) = 31000"
proof -
  have pre: "state (breaker (openSys 2000)) = OPEN"
    "clock (openSys 2000) < nextAttempt (breaker (openSys 2000))"
    by (simp_all add: openSys_def)
  show ?thesis
    using open_rejection_frame [OF pre, of failingOp 2000] pre
    by (simp add: openSys_def)
qed

text \<open>
  Claim C7, as stated, fails at the boundary instant: with the clock equal to
  \<open>nextAttempt\<close> the call is still rejected, the breaker stays \<open>OPEN\<close> and the operation
  is not run (\<^verbatim>\<open>Date.now() > this.nextAttempt\<close> is strict).
\<close>

theorem open_boundary_rejected:
  "state (breaker (openSys 31000)) = OPEN \<and>
   clock (openSys 31000) = nextAttempt (breaker (openSys 31000)) \<and>
   execute (request always503) (openSys 31000) =
     (Inl (JsError ''Service unavailable - Circuit Breaker Open: gateway timeout''), openSys 31000) \<and>
   state (breaker (snd (execute (request always503) (openSys 31000)))) = OPEN \<and>
   attempts (snd (execute (request always503) (openSys 31000))) = attempts (openSys 31000)"
  by (simp add: openSys_def execute_def openMessage_def)

text \<open>
  Claim C7, amended. When \<^verbatim>\<open>execute\<close> is invoked while the breaker is \<open>OPEN\<close> and the
  clock is strictly after \<open>nextAttempt\<close>, the breaker first moves to \<open>HALF_OPEN\<close> (with
  \<open>successCount\<close> zero) and the wrapped operation is then run once, from that state;
  its outcome is recorded. With a single request as the operation, exactly one request
  is issued.
\<close>

theorem open_after_timeout_probes:
  assumes "state (breaker s) = OPEN" and "clock s > nextAttempt (breaker s)"
  shows "state (toHalfOpen (breaker s)) = HALF_OPEN \<and>
         successCount (toHalfOpen (breaker s)) = 0 \<and>
         execute fn s =
           (case fn (s\<lparr>breaker := toHalfOpen (breaker s)\<rparr>) of
              (Inr result, s2) \<Rightarrow> (Inr result, s2\<lparr>breaker := onSuccess (breaker s2)\<rparr>)
            | (Inl err, s2) \<Rightarrow>
                (Inl err, s2\<lparr>breaker := onFailure (clock s2) (asError err) (breaker s2)\<rparr>)) \<and>
         attempts (snd (execute (request tr) s)) = attempts s + 1"
  using assms
  by (auto simp add: execute_def toHalfOpen_def request_def split: prod.splits sum.splits)

theorem open_after_timeout_probes_witness:
  "state (breaker (openSys 31001)) = OPEN \<and>
   clock (openSys 31001) > nextAttempt (breaker (openSys 31001)) \<and>
   state (toHalfOpen (breaker (openSys 31001))) = HALF_OPEN \<and>
   state (breaker (snd (execute succeedingOp (openSys 31001)))) = HALF_OPEN \<and>
   successCount (breaker (snd (execute succeedingOp (openSys 31001)))) = 1 \<and>
   attempts (snd (execute (request always503) (openSys 31001))) = 8"
proof -
  have pre: "state (breaker (openSys 31001)) = OPEN"
    "clock (openSys 31001) > nextAttempt (breaker (openSys 31001))"
    by (simp_all add: openSys_def)
  have run: "state (breaker (snd (execute succeedingOp (openSys 31001)))) = HALF_OPEN \<and>
   successCount (breaker (snd (execute succeedingOp (openSys 31001)))) = 1"
    by (simp add: breaker_defs sample_defs)
  show ?thesis
    using open_after_timeout_probes [OF pre, of succeedingOp always503] pre run
    by (simp add: openSys_def)
qed

text \<open>
  Claim C4. A failure of the operation while the breaker is \<open>HALF_OPEN\<close> (it was so when
  the call began, or the call itself moved it there from \<open>OPEN\<close>) sends it back to
  \<open>OPEN\<close> at once, whatever the success threshold: \<open>nextAttempt\<close> becomes the time of the
  failure plus the timeout, \<open>successCount\<close> becomes zero and \<open>failureCount\<close> is not
  increased.
\<close>

theorem half_open_failure_reopens:
  assumes start: "(state (breaker s) = HALF_OPEN \<and> s1 = s) \<or>
                  (state (breaker s) = OPEN \<and> nextAttempt (breaker s) < clock s \<and>
                   s1 = s\<lparr>breaker := toHalfOpen (breaker s)\<rparr>)"
    and fails: "fn s1 = (Inl e, s2)"
    and still: "state (breaker s2) = HALF_OPEN"
  shows "state (breaker (snd (execute fn s))) = OPEN \<and>
         nextAttempt (breaker (snd (execute fn s))) = clock s2 + timeout (options (breaker s2)) \<and>
         successCount (breaker (snd (execute fn s))) = 0 \<and>
         failureCount (breaker (snd (execute fn s))) = failureCount (breaker s2) \<and>
         clock (snd (execute fn s)) = clock s2"
  using assms by (auto simp add: execute_def onFailure_def toOpen_def Let_def)

theorem half_open_failure_reopens_witness:
  "state (breaker halfOpenSys) = HALF_OPEN \<and>
   failingOp halfOpenSys = (Inl (JsError ''boom''), halfOpenSys\<lparr>clock := 40100\<rparr>) \<and>
   state (breaker (snd (execute failingOp halfOpenSys))) = OPEN \<and>
   nextAttempt (breaker (snd (execute failingOp halfOpenSys))) = 40100 + 30000 \<and>
   successCount (breaker (snd (execute failingOp halfOpenSys))) = 0 \<and>
   failureCount (breaker (snd (execute failingOp halfOpenSys))) = 3"
proof -
  have a: "(state (breaker halfOpenSys) = HALF_OPEN \<and> halfOpenSys = halfOpenSys) \<or>
           (state (breaker halfOpenSys) = OPEN \<and>
            nextAttempt (breaker halfOpenSys) < clock halfOpenSys \<and>
            halfOpenSys = halfOpenSys\<lparr>breaker := toHalfOpen (breaker halfOpenSys)\<rparr>)"
    by (simp add: halfOpenSys_def)
  have b: "failingOp halfOpenSys = (Inl (JsError ''boom''), halfOpenSys\<lparr>clock := 40100\<rparr>)"
    by (simp add: halfOpenSys_def failingOp_def)
  have c: "state (breaker (halfOpenSys\<lparr>clock := 40100\<rparr>)) = HALF_OPEN"
    by (simp add: halfOpenSys_def)
  show ?thesis
    using half_open_failure_reopens
            [of halfOpenSys halfOpenSys failingOp "JsError ''boom''" "halfOpenSys\<lparr>clock := 40100\<rparr>",
             OF a b c] b
    by (simp add: halfOpenSys_def defaultOptions_def)
qed

text \<open>
  Claim C9. With thresholds of at least one, the threshold invariant (\<open>CLOSED\<close> implies
  \<open>failureCount < failureThreshold\<close>, \<open>HALF_OPEN\<close> implies
  \<open>successCount < successThreshold\<close>) holds of a new breaker and is preserved by
  \<^verbatim>\<open>execute\<close>, for every operation that itself preserves it, and by \<^verbatim>\<open>reset\<close>.
\<close>

theorem threshold_invariant_preserved:
  assumes cfg: "validOptions (options (breaker s))"
    and inv: "thresholdInvariant (breaker s)"
    and op: "\<And>x. validOptions (options (breaker x)) \<and> thresholdInvariant (breaker x) \<Longrightarrow>
                 validOptions (options (breaker (snd (fn x)))) \<and>
                 thresholdInvariant (breaker (snd (fn x)))"
  shows "thresholdInvariant (breaker (snd (execute fn s))) \<and>
         validOptions (options (breaker (snd (execute fn s)))) \<and>
         thresholdInvariant (reset (breaker s)) \<and>
         validOptions (options (reset (breaker s))) \<and>
         thresholdInvariant (newCircuitBreaker (options (breaker s)))"
proof -
  have "thresholdInvariant (newCircuitBreaker (options (breaker s)))"
    using cfg by (simp add: thresholdInvariant_def newCircuitBreaker_def validOptions_def)
  then show ?thesis
    using execute_keeps_invariant [of s fn, OF cfg inv op] reset_keeps_invariant [OF cfg]
    by simp
qed

theorem threshold_invariant_preserved_witness:
  "validOptions (options (breaker halfOpenSys)) \<and> thresholdInvariant (breaker halfOpenSys) \<and>
   thresholdInvariant (breaker (snd (execute succeedingOp halfOpenSys))) \<and>
   state (breaker (snd (execute succeedingOp halfOpenSys))) = CLOSED \<and>
   failureCount (breaker (snd (execute succeedingOp halfOpenSys))) = 0 \<and>
   thresholdInvariant (reset (breaker halfOpenSys))"
proof -
  have cfg: "validOptions (options (breaker halfOpenSys))"
    by (simp add: halfOpenSys_def defaultOptions_def validOptions_def)
  have inv: "thresholdInvariant (breaker halfOpenSys)"
    by (simp add: halfOpenSys_def defaultOptions_def thresholdInvariant_def)
  have op: "validOptions (options (breaker (snd (succeedingOp x)))) \<and>
            thresholdInvariant (breaker (snd (succeedingOp x)))"
    if "validOptions (options (breaker x)) \<and> thresholdInvariant (breaker x)" for x
    using that by (simp add: succeedingOp_def)
  have run: "state (breaker (snd (execute succeedingOp halfOpenSys))) = CLOSED \<and>
   failureCount (breaker (snd (execute succeedingOp halfOpenSys))) = 0"
    by (simp add: breaker_defs sample_defs)
  show ?thesis
    using threshold_invariant_preserved [of halfOpenSys succeedingOp, OF cfg inv op] cfg inv run
    by simp
qed


text \<open>
  Claim C1 asks that a logical call update the breaker's counters by its final outcome
  only. The code does otherwise. With the default breaker, \<open>CLOSED\<close> and
  \<open>failureCount = 0\<close>, and every request answered 503, \<^verbatim>\<open>get(url, config, 2)\<close> issues
  three requests and returns a failure, yet leaves \<open>failureCount = 0\<close>: each retry is a
  nested protected call, the innermost records the failure, and each enclosing level
  then records a success, because the nested call returned an error response instead
  of throwing. A call without retries leaves \<open>failureCount = 1\<close>, and so does the
  algorithm of the specification. \<^verbatim>\<open>post\<close> behaves as \<^verbatim>\<open>get\<close>. Three such calls in
  a row leave the breaker \<open>CLOSED\<close>, where the specified algorithm opens it.
\<close>

theorem retried_failure_recorded_as_success:
  "success (fst (get always503 2 freshSys)) = False \<and>
   status (fst (get always503 2 freshSys)) = 503 \<and>
   attempts (snd (get always503 2 freshSys)) = 3 \<and>
   state (breaker (snd (get always503 2 freshSys))) = CLOSED \<and>
   failureCount (breaker (snd (get always503 2 freshSys))) = 0 \<and>
   failureCount (breaker (snd (get always503 0 freshSys))) = 1 \<and>
   post always503 2 freshSys = get always503 2 freshSys \<and>
   attempts (snd (spec_call always503 2 freshSys)) = 3 \<and>
   failureCount (breaker (snd (spec_call always503 2 freshSys))) = 1 \<and>
   state (breaker (snd (get always503 2 (snd (get always503 2
           (snd (get always503 2 freshSys))))))) = CLOSED \<and>
   state (breaker (snd (spec_call always503 2 (snd (spec_call always503 2
           (snd (spec_call always503 2 freshSys))))))) = OPEN"
  by (simp add: post_eq_get get.simps spec_call_def spec_attempt.simps breaker_defs sample_defs
        client_defs)

text \<open>
  Claim C6. A logical call with \<open>retries = r \<ge> 0\<close> issues at most \<open>r + 1\<close> requests; and
  when the call is admitted by the breaker and its first request fails with an error
  that is not retryable, it issues exactly one, whatever \<open>r\<close> is. Both hold of
  \<^verbatim>\<open>get\<close> and of \<^verbatim>\<open>post\<close>.
\<close>

theorem attempts_bounded:
  assumes "0 \<le> r"
  shows "attempts s \<le> attempts (snd (get tr r s)) \<and>
         attempts (snd (get tr r s)) \<le> attempts s + nat r + 1 \<and>
         attempts s \<le> attempts (snd (post tr r s)) \<and>
         attempts (snd (post tr r s)) \<le> attempts s + nat r + 1 \<and>
         (\<not> (state (breaker s) = OPEN \<and> clock s \<le> nextAttempt (breaker s)) \<and>
          tr (attempts s) = (elapsed, Inl err) \<and> \<not> isRetryableError err \<longrightarrow>
            attempts (snd (get tr r s)) = attempts s + 1 \<and>
            attempts (snd (post tr r s)) = attempts s + 1)"
  using get_attempts [of s tr r] get_single_attempt [of s tr elapsed err r]
  by (simp add: post_eq_get)

theorem attempts_bounded_witness:
  "(0::int) \<le> 5 \<and>
   attempts (snd (get always503 5 freshSys)) \<le> attempts freshSys + nat 5 + 1 \<and>
   \<not> isRetryableError (AxiosError ''Request failed with status code 404''
                                   (Some 404) (Some ''ERR_BAD_REQUEST'') None) \<and>
   attempts (snd (get always404 5 freshSys)) = 1 \<and>
   attempts (snd (post always404 5 freshSys)) = 1"
proof -
  have r: "(0::int) \<le> 5" by simp
  have adm: "\<not> (state (breaker freshSys) = OPEN \<and> clock freshSys \<le> nextAttempt (breaker freshSys))"
    by (simp add: freshSys_def newCircuitBreaker_def)
  have tr: "always404 (attempts freshSys) =
              (100, Inl (AxiosError ''Request failed with status code 404''
                                   (Some 404) (Some ''ERR_BAD_REQUEST'') None))"
    by (simp add: always404_def)
  have nr: "\<not> isRetryableError (AxiosError ''Request failed with status code 404''
                                   (Some 404) (Some ''ERR_BAD_REQUEST'') None)"
    by (simp add: truthyNum_def)
  have z: "attempts freshSys = 0" by (simp add: freshSys_def)
  show ?thesis
    using attempts_bounded [OF r, of freshSys always503]
      attempts_bounded [OF r, of freshSys always404 100
         "AxiosError ''Request failed with status code 404'' (Some 404) (Some ''ERR_BAD_REQUEST'') None"]
      adm tr nr z
    by simp
qed


text \<open>
  Claim C5, as stated, fails: a 502 is not retried, and a failure with no HTTP status,
  although retried, is labelled \<open>INTERNAL_SERVER_ERROR\<close>, not \<open>NETWORK_ERROR\<close>.
\<close>

theorem bad_gateway_not_retried:
  "\<not> isRetryableError (AxiosError ''Request failed with status code 502'' (Some 502)
                          (Some ''ERR_BAD_RESPONSE'') None) \<and>
   code (handleError (AxiosError ''Request failed with status code 502'' (Some 502)
                          (Some ''ERR_BAD_RESPONSE'') None)) = ''BAD_GATEWAY'' \<and>
   isRetryableError (AxiosError ''Network Error'' None (Some ''ERR_NETWORK'') None) \<and>
   code (handleError (AxiosError ''Network Error'' None (Some ''ERR_NETWORK'') None)) =
     ''INTERNAL_SERVER_ERROR''"
  by (simp add: client_defs)

text \<open>
  Claim C5, amended. An error is retryable exactly when it is an error of the HTTP
  client that has no status (or status 0), or status 429, 503 or 504, or whose error
  code is \<open>ECONNRESET\<close> or \<open>ETIMEDOUT\<close>; every other outcome, 502 included, is terminal
  on the first attempt. A failure with no status is retryable and labelled
  \<open>INTERNAL_SERVER_ERROR\<close>; the other labels follow the table.
\<close>

theorem classifier_of_code:
  "(isRetryableError e \<longleftrightarrow>
      (\<exists>msg st c sm. e = AxiosError msg st c sm \<and>
         (st = None \<or> st = Some 0 \<or> st = Some 429 \<or> st = Some 503 \<or> st = Some 504 \<or>
          c = Some ''ECONNRESET'' \<or> c = Some ''ETIMEDOUT''))) \<and>
   isRetryableError (AxiosError msg None c sm) \<and>
   code (handleError (AxiosError msg None c sm)) = ''INTERNAL_SERVER_ERROR'' \<and>
   isRetryableError (AxiosError msg (Some 429) c sm) \<and>
   isRetryableError (AxiosError msg (Some 503) c sm) \<and>
   isRetryableError (AxiosError msg (Some 504) c sm) \<and>
   isRetryableError (AxiosError msg (Some 502) c sm) = (c = Some ''ECONNRESET'' \<or> c = Some ''ETIMEDOUT'') \<and>
   isRetryableError (AxiosError msg (Some 400) None sm) = False \<and>
   isRetryableError (AxiosError msg (Some 401) None sm) = False \<and>
   isRetryableError (AxiosError msg (Some 403) None sm) = False \<and>
   isRetryableError (AxiosError msg (Some 404) None sm) = False \<and>
   isRetryableError (AxiosError msg (Some 500) None sm) = False \<and>
   isRetryableError (AxiosError msg (Some 502) None sm) = False \<and>
   isRetryableError (JsError msg) = False \<and>
   isRetryableError (NonError msg) = False \<and>
   code (handleError (AxiosError msg (Some 400) c sm)) = ''BAD_REQUEST'' \<and>
   code (handleError (AxiosError msg (Some 401) c sm)) = ''UNAUTHORIZED'' \<and>
   code (handleError (AxiosError msg (Some 403) c sm)) = ''FORBIDDEN'' \<and>
   code (handleError (AxiosError msg (Some 404) c sm)) = ''NOT_FOUND'' \<and>
   code (handleError (AxiosError msg (Some 429) c sm)) = ''RATE_LIMITED'' \<and>
   code (handleError (AxiosError msg (Some 500) c sm)) = ''INTERNAL_SERVER_ERROR'' \<and>
   code (handleError (AxiosError msg (Some 502) c sm)) = ''BAD_GATEWAY'' \<and>
   code (handleError (AxiosError msg (Some 503) c sm)) = ''SERVICE_UNAVAILABLE'' \<and>
   code (handleError (AxiosError msg (Some 504) c sm)) = ''GATEWAY_TIMEOUT'' \<and>
   code (handleError (JsError msg)) = ''CLIENT_ERROR'' \<and>
   code (handleError (NonError msg)) = ''UNKNOWN_ERROR''"
proof -
  have "isRetryableError e \<longleftrightarrow>
      (\<exists>msg st c sm. e = AxiosError msg st c sm \<and>
         (st = None \<or> st = Some 0 \<or> st = Some 429 \<or> st = Some 503 \<or> st = Some 504 \<or>
          c = Some ''ECONNRESET'' \<or> c = Some ''ETIMEDOUT''))"
    by (cases e) (auto simp add: truthyNum_def split: option.splits)
  then show ?thesis by (simp add: client_defs)
qed

text \<open>
  Claim C8, as stated, fails for the image adapter: without a token it returns a
  successful response, status 200, carrying a fallback image, not an error.
\<close>

theorem flux_missing_token_returns_success:
  "\<not> truthyStr (apiKey (config noKeyFlux)) \<and>
   success (fst (FluxService_generateImage noKeyFlux 1 ''a red fox'' imagePost freshSys)) \<and>
   status (fst (FluxService_generateImage noKeyFlux 1 ''a red fox'' imagePost freshSys)) = 200 \<and>
   error (fst (FluxService_generateImage noKeyFlux 1 ''a red fox'' imagePost freshSys)) = None"
  by (simp add: FluxService_generateImage_def createFallbackResponse_def noKeyFlux_def
        noKeyConfig_def truthyStr_def)

text \<open>
  Claim C8, amended. When the API credential is absent, the Grok, Anthropic and
  Perplexity adapters return at once an error response with status 401 and
  \<open>success = false\<close>, and the image adapter returns at once a successful response,
  status 200, with a fallback image marked \<open>fallback = true\<close>. In each case
  \<^verbatim>\<open>this.post\<close> is not invoked: the result does not depend on it, and the state,
  breaker and request counter included, is unchanged.
\<close>

theorem missing_credential_bypasses_client:
  assumes "\<not> truthyStr (apiKey cfg)" and "config flux = cfg"
  shows "GrokService_getSuggestions cfg post_fn s =
           (\<lparr>data = None,
             error = Some \<lparr>code = ''GROK_AUTH_ERROR'',
                            message = ''No API key provided for Grok AI''\<rparr>,
             status = 401, success = False\<rparr>, s) \<and>
         AnthropicService_query cfg shape post_fn s =
           (\<lparr>data = None,
             error = Some \<lparr>code = ''ANTHROPIC_AUTH_ERROR'',
                            message = ''No API key provided for Anthropic Claude''\<rparr>,
             status = 401, success = False\<rparr>, s) \<and>
         PerplexityService_query cfg post_fn s =
           (\<lparr>data = None,
             error = Some \<lparr>code = ''PERPLEXITY_AUTH_ERROR'',
                            message = ''No API key provided for Perplexity AI''\<rparr>,
             status = 401, success = False\<rparr>, s) \<and>
         FluxService_generateImage flux randomIndex p image_post s =
           (\<lparr>data = Some \<lparr>url = getFallbackImage flux randomIndex, prompt = p,
                           img_error = Some \<lparr>code = ''FALLBACK_USED'',
                                               message = ''No API token configured''\<rparr>,
                           fallback = Some True\<rparr>,
             error = None, status = 200, success = True\<rparr>, s)"
  using assms
  by (simp add: GrokService_getSuggestions_def AnthropicService_query_def
        PerplexityService_query_def FluxService_generateImage_def createFallbackResponse_def)

theorem missing_credential_bypasses_client_witness:
  "\<not> truthyStr (apiKey noKeyConfig) \<and> config noKeyFlux = noKeyConfig \<and>
   status (fst (GrokService_getSuggestions noKeyConfig (servicePost always503) freshSys)) = 401 \<and>
   success (fst (GrokService_getSuggestions noKeyConfig (servicePost always503) freshSys)) = False \<and>
   snd (GrokService_getSuggestions noKeyConfig (servicePost always503) freshSys) = freshSys \<and>
   snd (AnthropicService_query noKeyConfig id (servicePost always503) freshSys) = freshSys \<and>
   snd (PerplexityService_query noKeyConfig (servicePost always503) freshSys) = freshSys \<and>
   snd (FluxService_generateImage noKeyFlux 1 ''a red fox'' imagePost freshSys) = freshSys"
proof -
  have a: "\<not> truthyStr (apiKey noKeyConfig)" by (simp add: noKeyConfig_def truthyStr_def)
  have b: "config noKeyFlux = noKeyConfig" by (simp add: noKeyFlux_def)
  show ?thesis
    using missing_credential_bypasses_client
            [OF a b, of "servicePost always503" freshSys id 1 "''a red fox''" imagePost] a b
    by simp
qed

end
